theory Spec2Isabelle
  imports Main "HOL-Library.Sublist" "HOL-Library.Extended_Nat"
begin

section \<open>Python strings and values\<close>

text \<open>
  A Python \<open>str\<close> is modelled as a \<^typ>\<open>string\<close>. Characters outside ASCII
  stand for the bytes of their UTF-8 encoding. The operations below are the \<open>str\<close> methods that
  \<open>bdd_converter.py\<close> calls.
\<close>

datatype exn = ValueError | TypeError | OverflowError

text \<open>The two kinds of value that meet at a \<open>+\<close> in the source.\<close>

datatype pyval = PyStr string | PyList "string list"

text \<open>\<open>a + b\<close>: concatenation of two \<open>str\<close> or of two lists, \<open>TypeError\<close> otherwise.\<close>

fun py_add :: "pyval \<Rightarrow> pyval \<Rightarrow> exn + pyval" where
  "py_add (PyStr a) (PyStr b) = Inr (PyStr (a @ b))"
| "py_add (PyList a) (PyList b) = Inr (PyList (a @ b))"
| "py_add (PyStr a) (PyList b) = Inl TypeError"
| "py_add (PyList a) (PyStr b) = Inl TypeError"

text \<open>\<open>sep.join(xs)\<close>\<close>

fun py_join :: "string \<Rightarrow> string list \<Rightarrow> string" where
  "py_join sep [] = []"
| "py_join sep [x] = x"
| "py_join sep (x # y # ys) = x @ sep @ py_join sep (y # ys)"

text \<open>\<open>s.lower()\<close>, on the ASCII letters: \<open>A\<close> to \<open>Z\<close> are the codes 65 to 90,
  and the lower-case letter is 32 above, which sets the bit of weight 32. The bytes
  of a character outside ASCII are left as they are; the source only asks whether
  \<open>scenario\<close> occurs in the lowered name, and lowering such a character never
  gives a run of ASCII letters that reads so.\<close>

definition lower_char :: "char \<Rightarrow> char" where
  "lower_char c =
     (let n = (of_char c :: nat)
      in if 65 \<le> n \<and> n \<le> 90
         then (case c of Char b0 b1 b2 b3 b4 b5 b6 b7 \<Rightarrow> Char b0 b1 b2 b3 b4 True b6 b7)
         else c)"

definition py_lower :: "string \<Rightarrow> string" where
  "py_lower s = map lower_char s"

text \<open>\<open>w in s\<close> for two strings: \<open>w\<close> occurs in \<open>s\<close> as a contiguous substring.\<close>

fun py_in :: "string \<Rightarrow> string \<Rightarrow> bool" where
  "py_in w [] = (w = [])"
| "py_in w (c # s) = (prefix w (c # s) \<or> py_in w s)"

text \<open>
  \<open>s.strip()\<close> removes the white space at both ends. White space is what
  \<open>str.isspace\<close> accepts: the code points U+0009 to U+000D, U+001C to U+0020,
  U+0085, U+00A0, U+1680, U+2000 to U+200A, U+2028, U+2029, U+202F, U+205F and
  U+3000, each listed here by its UTF-8 bytes.
\<close>

definition py_whitespace :: "string list" where
  "py_whitespace =
     [[CHR 0x09], [CHR 0x0A], [CHR 0x0B], [CHR 0x0C], [CHR 0x0D],
      [CHR 0x1C], [CHR 0x1D], [CHR 0x1E], [CHR 0x1F], [CHR 0x20],
      [CHR 0xC2, CHR 0x85], [CHR 0xC2, CHR 0xA0],
      [CHR 0xE1, CHR 0x9A, CHR 0x80],
      [CHR 0xE2, CHR 0x80, CHR 0x80], [CHR 0xE2, CHR 0x80, CHR 0x81],
      [CHR 0xE2, CHR 0x80, CHR 0x82], [CHR 0xE2, CHR 0x80, CHR 0x83],
      [CHR 0xE2, CHR 0x80, CHR 0x84], [CHR 0xE2, CHR 0x80, CHR 0x85],
      [CHR 0xE2, CHR 0x80, CHR 0x86], [CHR 0xE2, CHR 0x80, CHR 0x87],
      [CHR 0xE2, CHR 0x80, CHR 0x88], [CHR 0xE2, CHR 0x80, CHR 0x89],
      [CHR 0xE2, CHR 0x80, CHR 0x8A],
      [CHR 0xE2, CHR 0x80, CHR 0xA8], [CHR 0xE2, CHR 0x80, CHR 0xA9],
      [CHR 0xE2, CHR 0x80, CHR 0xAF],
      [CHR 0xE2, CHR 0x81, CHR 0x9F],
      [CHR 0xE3, CHR 0x80, CHR 0x80]]"

text \<open>Removing from the front of a string, as long as there is one, a leading
  character of the given ones (each a byte sequence).\<close>

function lstrip_chars :: "string list \<Rightarrow> string \<Rightarrow> string" where
  "lstrip_chars chars s =
     (case find (\<lambda>c. c \<noteq> [] \<and> prefix c s) chars of
        None \<Rightarrow> s
      | Some c \<Rightarrow> lstrip_chars chars (drop (length c) s))"
  by pat_completeness auto
termination
  by (relation "measure (\<lambda>(chars, s). length s)") (auto simp: find_Some_iff prefix_def)

declare lstrip_chars.simps [simp del]

text \<open>At the end of the string the same is done on the reversed string, with each
  character's bytes reversed.\<close>

definition py_strip :: "string \<Rightarrow> string" where
  "py_strip s =
     rev (lstrip_chars (map rev py_whitespace) (rev (lstrip_chars py_whitespace s)))"

text \<open>\<open>s.rstrip(chars)\<close>\<close>

definition py_rstrip :: "string \<Rightarrow> string \<Rightarrow> string" where
  "py_rstrip chars s = rev (dropWhile (\<lambda>c. c \<in> set chars) (rev s))"

text \<open>\<open>s.replace(' ', '_')\<close>\<close>

definition replace_space :: "string \<Rightarrow> string" where
  "replace_space s = map (\<lambda>c. if c = CHR '' '' then CHR ''_'' else c) s"

section \<open>The external functions\<close>

text \<open>
  \<open>robot.utils\<close> and \<open>os.path\<close> are not part of the converter. Their functions are
  parameters of the model. The two duration functions are called inside a
  \<open>try\<close> whose handler looks at the kind of the exception, so they return an
  exception or a value; \<open>'d\<close> is the type of a parsed duration.
\<close>

record 'd robot_utils =
  get_link_path :: "string \<Rightarrow> string \<Rightarrow> string"
  dirname :: "string \<Rightarrow> string"
  seq2str2 :: "string list \<Rightarrow> string"
  timestr_to_secs :: "string \<Rightarrow> exn + 'd"
  secs_to_timestr :: "'d \<Rightarrow> exn + string"

section \<open>The suite tree\<close>

text \<open>
  A branch of an \<open>IF\<close> or \<open>TRY\<close> block: its type tag
  (\<open>IF\<close>, \<open>ELSE IF\<close>, \<open>ELSE\<close>, \<open>TRY\<close>, \<open>EXCEPT\<close>, \<open>FINALLY\<close>)
  and the fields the converter reads.
\<close>

record branch =
  b_type :: string
  b_condition :: "string option"
  b_patterns :: "string list"
  b_variable :: "string option"

datatype kw_type = SETUP | TEARDOWN | KEYWORD

text \<open>A keyword call: the value of \<open>kw.type\<close> and the fields the converter reads.\<close>

record keyword =
  k_type :: kw_type
  k_assign :: "string list"
  k_name :: string
  k_args :: "string list"

text \<open>
  A body item. \<open>Null\<close> is an item whose truth value is false (\<open>None\<close>, or a
  keyword object without a name); every other item is true. The source skips
  such an item with \<open>if not kw: continue\<close>.
\<close>

datatype node =
    Null
  | Keyword keyword
  | For (for_variables: "string list") (for_flavor: string) (for_values: "string list")
  | While (while_condition: string)
  | IfElseRoot (if_body: "branch list")
  | TryExceptRoot (try_body: "branch list")

text \<open>
  The setup and the teardown of a test or a suite are optional keywords: \<open>None\<close> is
  the absent one, whose truth value is false.
\<close>

record test =
  t_name :: string
  t_longname :: string
  t_id :: string
  t_doc :: string
  t_tags :: "string list"
  t_timeout :: "string option"
  t_body :: "node list"
  t_setup :: "keyword option"
  t_teardown :: "keyword option"

datatype suite =
  Suite (s_source: "string option") (s_id: string) (s_name: string) (s_longname: string)
        (s_doc: string) (s_test_count: nat) (s_suites: "suite list") (s_tests: "test list")
        (s_setup: "keyword option") (s_teardown: "keyword option")

text \<open>An optional keyword as an item of a sequence, as in
  \<open>(suite.setup, suite.teardown)\<close>.\<close>

fun opt_node :: "keyword option \<Rightarrow> node" where
  "opt_node None = Null"
| "opt_node (Some k) = Keyword k"

section \<open>The records the converter builds\<close>

record line_record =
  l_type :: string
  l_name :: string
  l_arguments :: string

record test_record =
  tr_name :: string
  tr_fullName :: string
  tr_id :: string
  tr_doc :: string
  tr_tags :: "string list"
  tr_timeout :: string
  tr_keywords :: "line_record list"

text \<open>\<open>sr_tests\<close> holds what \<open>_write_tests\<close> returns, which is always \<open>None\<close>.\<close>

datatype suite_record =
  SuiteRecord (sr_source: string) (sr_relativeSource: string) (sr_id: string) (sr_name: string)
              (sr_fullName: string) (sr_doc: string) (sr_numberOfTests: nat)
              (sr_suites: "suite_record list") (sr_tests: unit) (sr_keywords: "line_record list")

section \<open>Keyword normalizer\<close>

text \<open>\<open>Builder._get_kw_name\<close>\<close>

definition get_kw_name :: "keyword \<Rightarrow> string" where
  "get_kw_name kw =
     (if k_assign kw \<noteq> []
      then py_join '', '' (map (py_rstrip ''= '') (k_assign kw)) @ '' = '' @ k_name kw
      else k_name kw)"

text \<open>\<open>Builder._build_data_row\<close>\<close>

definition build_data_row :: "string list \<Rightarrow> string" where
  "build_data_row row_data = [CHR 0x09] @ ''| '' @ py_join '' | '' row_data @ '' |''"

text \<open>\<open>Builder._build_keyword\<close>\<close>

definition build_keyword :: "keyword \<Rightarrow> string \<Rightarrow> line_record" where
  "build_keyword kw kw_type =
     (if get_kw_name kw = ''^'' \<or> get_kw_name kw = ''>''
      then \<lparr>l_type = kw_type, l_name = '''', l_arguments = build_data_row (k_args kw)\<rparr>
      else \<lparr>l_type = kw_type, l_name = get_kw_name kw,
            l_arguments = py_join '', '' (k_args kw)\<rparr>)"

text \<open>\<open>Builder._build_for\<close> and \<open>Builder._build_while\<close>\<close>

definition build_for :: "'d robot_utils \<Rightarrow> string list \<Rightarrow> string \<Rightarrow> string list \<Rightarrow> line_record" where
  "build_for u variables flavor vals =
     \<lparr>l_type = ''FOR'',
      l_name = py_join '', '' variables @ '' '' @ flavor @ '' '' @ seq2str2 u vals,
      l_arguments = ''''\<rparr>"

definition build_while :: "string \<Rightarrow> line_record" where
  "build_while condition = \<lparr>l_type = ''WHILE'', l_name = condition, l_arguments = ''''\<rparr>"

text \<open>\<open>Builder._build_if\<close>: \<open>branch.condition or ''\<close> is the condition unless it
  is \<open>None\<close> or empty.\<close>

fun build_if :: "branch list \<Rightarrow> line_record list" where
  "build_if [] = []"
| "build_if (b # bs) =
     \<lparr>l_type = b_type b,
      l_name = (case b_condition b of None \<Rightarrow> '''' | Some c \<Rightarrow> c),
      l_arguments = ''''\<rparr> # build_if bs"

text \<open>\<open>Builder._build_try\<close>: the name of one branch, then the loop.\<close>

definition try_branch_name :: "branch \<Rightarrow> string" where
  "try_branch_name b =
     (if b_type b = ''EXCEPT''
      then (let patterns = py_join '', '' (b_patterns b);
                as_var = (case b_variable b of
                            None \<Rightarrow> ''''
                          | Some v \<Rightarrow> if v \<noteq> [] then ''AS '' @ v else '''')
            in py_strip (patterns @ '' '' @ as_var))
      else '''')"

fun build_try :: "branch list \<Rightarrow> line_record list" where
  "build_try [] = []"
| "build_try (b # bs) =
     \<lparr>l_type = b_type b, l_name = try_branch_name b, l_arguments = ''''\<rparr> # build_try bs"

text \<open>\<open>Builder._build_keywords\<close>: the generator, as the list it yields.\<close>

fun build_keywords :: "'d robot_utils \<Rightarrow> node list \<Rightarrow> line_record list" where
  "build_keywords u [] = []"
| "build_keywords u (kw # kws) =
     (case kw of
        Null \<Rightarrow> build_keywords u kws
      | Keyword k \<Rightarrow>
          (case k_type k of
             SETUP \<Rightarrow> build_keyword k ''SETUP'' # build_keywords u kws
           | TEARDOWN \<Rightarrow> build_keyword k ''TEARDOWN'' # build_keywords u kws
           | KEYWORD \<Rightarrow> build_keyword k ''KEYWORD'' # build_keywords u kws)
      | For variables flavor vals \<Rightarrow> build_for u variables flavor vals # build_keywords u kws
      | While condition \<Rightarrow> build_while condition # build_keywords u kws
      | IfElseRoot body \<Rightarrow> build_if body @ build_keywords u kws
      | TryExceptRoot body \<Rightarrow> build_try body @ build_keywords u kws)"

section \<open>Timeout formatter\<close>

text \<open>
  \<open>Builder._get_timeout\<close>: \<open>None\<close> gives the empty string. Otherwise the two
  duration functions run inside the \<open>try\<close>; a \<open>ValueError\<close> of either is
  caught and the timeout is returned as it was, an exception of another kind
  leaves the function.
\<close>

definition get_timeout :: "'d robot_utils \<Rightarrow> string option \<Rightarrow> exn + string" where
  "get_timeout u timeout =
     (case timeout of
        None \<Rightarrow> Inr ''''
      | Some t \<Rightarrow>
          (case (case timestr_to_secs u t of Inl e \<Rightarrow> Inl e | Inr d \<Rightarrow> secs_to_timestr u d) of
             Inl ValueError \<Rightarrow> Inr t
           | Inl e \<Rightarrow> Inl e
           | Inr tout \<Rightarrow> Inr tout))"

section \<open>Test builder\<close>

text \<open>
  \<open>Builder._build_test\<close>. The source inserts the setup into \<open>test.body\<close> and appends
  the teardown to it, in place; the model returns the test as the call leaves it
  beside the result.
\<close>

definition build_test :: "'d robot_utils \<Rightarrow> test \<Rightarrow> (exn + test_record) \<times> test" where
  "build_test u test0 =
     (let test1 = (case t_setup test0 of
                     Some setup \<Rightarrow> test0\<lparr>t_body := Keyword setup # t_body test0\<rparr>
                   | None \<Rightarrow> test0);
          test = (case t_teardown test1 of
                    Some teardown \<Rightarrow> test1\<lparr>t_body := t_body test1 @ [Keyword teardown]\<rparr>
                  | None \<Rightarrow> test1);
          test_name = (if \<not> py_in ''scenario'' (py_lower (t_name test))
                       then ''Scenario: '' @ t_name test else t_name test)
      in case get_timeout u (t_timeout test) of
           Inl e \<Rightarrow> (Inl e, test)
         | Inr tout \<Rightarrow>
             (Inr \<lparr>tr_name = test_name, tr_fullName = t_longname test, tr_id = t_id test,
                   tr_doc = t_doc test, tr_tags = t_tags test, tr_timeout = tout,
                   tr_keywords = build_keywords u (t_body test)\<rparr>, test))"

text \<open>The list comprehension \<open>[self._build_test(t) for t in suite.tests]\<close>: it stops at
  the first exception, with the tests before it already changed.\<close>

fun build_tests :: "'d robot_utils \<Rightarrow> test list \<Rightarrow> (exn + test_record list) \<times> test list" where
  "build_tests u [] = (Inr [], [])"
| "build_tests u (t # ts) =
     (case build_test u t of
        (Inl e, t') \<Rightarrow> (Inl e, t' # ts)
      | (Inr r, t') \<Rightarrow>
          (case build_tests u ts of
             (Inl e, ts') \<Rightarrow> (Inl e, t' # ts')
           | (Inr rs, ts') \<Rightarrow> (Inr (r # rs), t' # ts')))"

section \<open>Feature text emitter\<close>

text \<open>
  The file system maps a file name to the text of the file. Opening a file for
  writing and closing it again leaves the text written in between, also when an
  exception ends the \<open>with\<close> block early. Opening and writing themselves succeed.
\<close>

type_synonym fs = "string \<rightharpoonup> string"

abbreviation tab :: char where "tab \<equiv> CHR 0x09"
abbreviation nl :: char where "nl \<equiv> CHR 0x0A"

text \<open>\<open>feature.write(x)\<close> appends a \<open>str\<close> to the text written so far.\<close>

fun file_write :: "pyval \<Rightarrow> string \<Rightarrow> exn + string" where
  "file_write (PyStr s) buf = Inr (buf @ s)"
| "file_write (PyList xs) buf = Inl TypeError"

text \<open>The inner loop over \<open>test['keywords']\<close>.\<close>

fun write_keywords :: "line_record list \<Rightarrow> string \<Rightarrow> string" where
  "write_keywords [] buf = buf"
| "write_keywords (keyword # ks) buf =
     write_keywords ks (buf @ [tab, tab] @ l_name keyword @ l_arguments keyword @ [nl])"

text \<open>The body of the loop over the tests: the exception it ends with, if any, and
  the text written.\<close>

definition write_test :: "test_record \<Rightarrow> string \<Rightarrow> exn option \<times> string" where
  "write_test test buf =
     (case py_add (PyStr ''t'') (PyList (tr_tags test)) of
        Inl e \<Rightarrow> (Some e, buf)
      | Inr v \<Rightarrow>
          (case file_write v buf of
             Inl e \<Rightarrow> (Some e, buf)
           | Inr buf1 \<Rightarrow>
               (let buf2 = buf1 @ [tab] @ tr_name test @ [nl];
                    buf3 = write_keywords (tr_keywords test) buf2
                in (None, buf3 @ [nl]))))"

fun write_test_list :: "test_record list \<Rightarrow> string \<Rightarrow> exn option \<times> string" where
  "write_test_list [] buf = (None, buf)"
| "write_test_list (test # tests) buf =
     (case write_test test buf of
        (Some e, buf') \<Rightarrow> (Some e, buf')
      | (None, buf') \<Rightarrow> write_test_list tests buf')"

text \<open>The \<open>with\<close> block of \<open>_write_tests\<close>: the header, then the tests.\<close>

definition write_feature :: "string \<Rightarrow> test_record list \<Rightarrow> exn option \<times> string" where
  "write_feature name tests = write_test_list tests (''Feature: '' @ name @ [nl, nl, nl])"

text \<open>\<open>Builder._write_tests\<close>: the exception it raises, if any, the tests of the suite
  as the call leaves them, and the file system.\<close>

definition write_tests :: "'d robot_utils \<Rightarrow> suite \<Rightarrow> fs \<Rightarrow> exn option \<times> test list \<times> fs" where
  "write_tests u suite files =
     (if s_tests suite \<noteq> [] then
        (case build_tests u (s_tests suite) of
           (Inl e, tests') \<Rightarrow> (Some e, tests', files)
         | (Inr tests, tests') \<Rightarrow>
             (let filename = replace_space (s_name suite) @ ''.feature'';
                  (err, text) = write_feature (s_name suite) tests
              in (err, tests', files(filename \<mapsto> text))))
      else (None, s_tests suite, files))"

section \<open>Suite builder\<close>

text \<open>\<open>Builder._get_relative_source\<close>, with the builder's \<open>_output_path\<close> as an
  argument. \<open>not x\<close> holds of \<open>None\<close> and of the empty string.\<close>

definition get_relative_source :: "'d robot_utils \<Rightarrow> string option \<Rightarrow> string option \<Rightarrow> string" where
  "get_relative_source u output_path source =
     (case source of
        None \<Rightarrow> ''''
      | Some src \<Rightarrow>
          (case output_path of
             None \<Rightarrow> ''''
           | Some out \<Rightarrow>
               if src = [] \<or> out = [] then '''' else get_link_path u src (dirname u out)))"

text \<open>
  \<open>Builder._build_suite\<close> and \<open>Builder._build_suites\<close>. The arguments of \<open>dict\<close>
  are evaluated in the order written: the child suites, then the tests of the
  suite itself, then its setup and teardown. Each returns its result or the
  exception that ended it, the tree as the call leaves it, and the file system.
\<close>

fun build_suite ::
    "'d robot_utils \<Rightarrow> string option \<Rightarrow> suite \<Rightarrow> fs \<Rightarrow> (exn + suite_record) \<times> suite \<times> fs"
  and build_suites ::
    "'d robot_utils \<Rightarrow> string option \<Rightarrow> suite list \<Rightarrow> fs \<Rightarrow> (exn + suite_record list) \<times> suite list \<times> fs"
where
  "build_suite u out (Suite source sid name longname doc test_count suites tests setup teardown) files =
     (case build_suites u out suites files of
        (Inl e, suites', files1) \<Rightarrow>
          (Inl e, Suite source sid name longname doc test_count suites' tests setup teardown, files1)
      | (Inr records, suites', files1) \<Rightarrow>
          (case write_tests u (Suite source sid name longname doc test_count suites' tests
                                 setup teardown) files1 of
             (Some e, tests', files2) \<Rightarrow>
               (Inl e, Suite source sid name longname doc test_count suites' tests' setup teardown,
                files2)
           | (None, tests', files2) \<Rightarrow>
               (Inr (SuiteRecord (case source of None \<Rightarrow> '''' | Some src \<Rightarrow> src)
                       (get_relative_source u out source) sid name longname doc test_count
                       records () (build_keywords u [opt_node setup, opt_node teardown])),
                Suite source sid name longname doc test_count suites' tests' setup teardown,
                files2)))"
| "build_suites u out [] files = (Inr [], [], files)"
| "build_suites u out (s # ss) files =
     (case build_suite u out s files of
        (Inl e, s', files1) \<Rightarrow> (Inl e, s' # ss, files1)
      | (Inr r, s', files1) \<Rightarrow>
          (case build_suites u out ss files1 of
             (Inl e, ss', files2) \<Rightarrow> (Inl e, s' # ss', files2)
           | (Inr rs, ss', files2) \<Rightarrow> (Inr (r # rs), s' # ss', files2)))"

section \<open>Definitions for the statements\<close>

text \<open>The number of line records that one body item yields: none for a skipped
  item, one for a keyword, a \<open>FOR\<close> or a \<open>WHILE\<close>, one per branch for an \<open>IF\<close> or
  a \<open>TRY\<close> block.\<close>

fun contribution :: "node \<Rightarrow> nat" where
  "contribution Null = 0"
| "contribution (Keyword k) = 1"
| "contribution (For variables flavor vals) = 1"
| "contribution (While condition) = 1"
| "contribution (IfElseRoot body) = length body"
| "contribution (TryExceptRoot body) = length body"

text \<open>An optional keyword as the list of the items it stands for.\<close>

fun present :: "keyword option \<Rightarrow> node list" where
  "present None = []"
| "present (Some k) = [Keyword k]"




text \<open>The exception that the timeout formatter raises for the timeout of a test, if
  it raises one.\<close>

definition timeout_error :: "'d robot_utils \<Rightarrow> test \<Rightarrow> exn option" where
  "timeout_error u t =
     (case get_timeout u (t_timeout t) of Inl e \<Rightarrow> Some e | Inr tout \<Rightarrow> None)"

text \<open>What a run leaves behind: the exception that ended it, if any, and the files.\<close>

definition outcome :: "(exn + 'a) \<times> 'b \<times> fs \<Rightarrow> exn option \<times> fs" where
  "outcome run = (case run of (Inl e, tree, files) \<Rightarrow> (Some e, files)
                            | (Inr r, tree, files) \<Rightarrow> (None, files))"

text \<open>The tree that a run leaves behind.\<close>

definition tree_after :: "(exn + 'a) \<times> 'b \<times> fs \<Rightarrow> 'b" where
  "tree_after run = fst (snd run)"

subsection \<open>Concrete inputs\<close>

text \<open>One behaviour of the external functions, to run the model on concrete inputs.
  Durations are seconds, finite or infinite: \<open>1m\<close> and \<open>60s\<close> parse to 60, \<open>inf\<close>
  parses to the infinite duration, as \<open>float('inf')\<close> does, and anything else is not a
  duration. Rendering turns the seconds into an integer first, which raises
  \<open>OverflowError\<close> for the infinite duration.\<close>

definition stub_utils :: "enat robot_utils" where
  "stub_utils =
     \<lparr>get_link_path = (\<lambda>target base. ''link from '' @ base @ '' to '' @ target),
      dirname = (\<lambda>path. ''dir of '' @ path),
      seq2str2 = (\<lambda>xs. ''[ '' @ py_join '' | '' xs @ '' ]''),
      timestr_to_secs =
        (\<lambda>s. if s = ''1m'' \<or> s = ''60s'' then Inr (enat 60)
             else if s = ''inf'' then Inr \<infinity>
             else Inl ValueError),
      secs_to_timestr =
        (\<lambda>d. case d of
               enat n \<Rightarrow> if n = 60 then Inr ''1 minute'' else Inl ValueError
             | \<infinity> \<Rightarrow> Inl OverflowError)\<rparr>"

definition open_browser :: keyword where
  "open_browser =
     \<lparr>k_type = KEYWORD, k_assign = [], k_name = ''Open Browser'', k_args = [''chrome'']\<rparr>"

definition log_in :: keyword where
  "log_in = \<lparr>k_type = SETUP, k_assign = [], k_name = ''Log In'', k_args = []\<rparr>"

definition login_test :: test where
  "login_test =
     \<lparr>t_name = ''Successful login'', t_longname = ''Login Suite.Successful login'',
      t_id = ''s1-t1'', t_doc = '''', t_tags = [''smoke''], t_timeout = None,
      t_body = [Keyword open_browser], t_setup = None, t_teardown = None\<rparr>"

definition login_record :: test_record where
  "login_record =
     \<lparr>tr_name = ''Scenario: Successful login'', tr_fullName = ''Login Suite.Successful login'',
      tr_id = ''s1-t1'', tr_doc = '''', tr_tags = [''smoke''], tr_timeout = '''',
      tr_keywords = [\<lparr>l_type = ''KEYWORD'', l_name = ''Open Browser'', l_arguments = ''chrome''\<rparr>]\<rparr>"

definition login_suite :: suite where
  "login_suite =
     Suite (Some ''/tests/login.robot'') ''s1'' ''Login Suite'' ''Login Suite'' '''' 1 []
       [login_test] None None"

definition setup_test :: test where
  "setup_test = login_test\<lparr>t_setup := Some log_in\<rparr>"

definition skipped_item_test :: test where
  "skipped_item_test = login_test\<lparr>t_body := [Null]\<rparr>"




definition setup_suite :: suite where
  "setup_suite =
     Suite None ''s1'' ''Login Suite'' ''Login Suite'' '''' 1 [] [setup_test] None None"

definition suite_a :: suite where
  "suite_a = Suite None ''s1-s1'' ''A'' ''Root.A'' '''' 1 [] [login_test] None None"

definition suite_b :: suite where
  "suite_b = Suite None ''s1-s2'' ''B'' ''Root.B'' '''' 1 [] [login_test] None None"

definition root_suite :: suite where
  "root_suite = Suite None ''s1'' ''Root'' ''Root'' '''' 2 [suite_a, suite_b] [] None None"

definition except_branch :: branch where
  "except_branch =
     \<lparr>b_type = ''EXCEPT'', b_condition = None, b_patterns = [''ValueError: *'', ''Oops''],
      b_variable = Some ''${err}''\<rparr>"

definition try_branch :: branch where
  "try_branch = \<lparr>b_type = ''TRY'', b_condition = None, b_patterns = [], b_variable = None\<rparr>"

text \<open>A string reads \<open>scenario\<close> whatever the case of its letters: it has eight
  characters, the first \<open>s\<close> or \<open>S\<close>, the second \<open>c\<close> or \<open>C\<close>, and so on.\<close>

definition reads_scenario :: "string \<Rightarrow> bool" where
  "reads_scenario x =
     list_all2 (\<lambda>c letters. c \<in> set letters) x
       [''sS'', ''cC'', ''eE'', ''nN'', ''aA'', ''rR'', ''iI'', ''oO'']"

definition login_works_test :: test where
  "login_works_test = login_test\<lparr>t_name := ''Login works''\<rparr>"

definition scenario_login_test :: test where
  "scenario_login_test = login_test\<lparr>t_name := ''Scenario: Login works''\<rparr>"

definition my_scenario_test :: test where
  "my_scenario_test = login_test\<lparr>t_name := ''My SCENARIO test''\<rparr>"

text \<open>A string is white when it is a sequence of white-space characters. The string
  \<open>r\<close> is \<open>s\<close> trimmed when \<open>s\<close> is \<open>r\<close> between two white strings and no
  white-space character begins or ends \<open>r\<close>.\<close>

definition white :: "string \<Rightarrow> bool" where
  "white s = (\<exists>cs. set cs \<subseteq> set py_whitespace \<and> s = concat cs)"

definition trimmed :: "string \<Rightarrow> string \<Rightarrow> bool" where
  "trimmed s r =
     (\<exists>l t. s = l @ r @ t \<and> white l \<and> white t
        \<and> (\<forall>c \<in> set py_whitespace. \<not> prefix c r \<and> \<not> suffix c r))"

text \<open>The \<open>AS\<close> clause of an \<open>EXCEPT\<close> branch: empty when no variable is set.\<close>

fun as_clause :: "string option \<Rightarrow> string" where
  "as_clause None = ''''"
| "as_clause (Some v) = (if v = '''' then '''' else ''AS '' @ v)"

definition bare_except_branch :: branch where
  "bare_except_branch =
     \<lparr>b_type = ''EXCEPT'', b_condition = None, b_patterns = [''ValueError: *'', ''Oops''],
      b_variable = None\<rparr>"

text \<open>A pattern that begins with a no-break space, U+00A0, and ends with a tab.\<close>

definition padded_except_branch :: branch where
  "padded_except_branch =
     \<lparr>b_type = ''EXCEPT'', b_condition = None,
      b_patterns = [[CHR 0xC2, CHR 0xA0] @ ''Oops'' @ [CHR 0x09]], b_variable = Some ''''\<rparr>"

definition sourced_suite :: suite where
  "sourced_suite =
     Suite (Some ''/tests/login.robot'') ''s1'' ''Login Suite'' ''Login Suite'' '''' 0 [] []
       None None"

subsection \<open>What a run depends on\<close>

text \<open>The first exception in a list of optional exceptions.\<close>

fun first_error :: "exn option list \<Rightarrow> exn option" where
  "first_error [] = None"
| "first_error (Some e # es) = Some e"
| "first_error (None # es) = first_error es"

text \<open>Of a suite, a run uses the name, whether the suite has tests, the first
  exception that the timeout of one of its tests raises, and the same of the child
  suites.\<close>

datatype skeleton = Skeleton string bool "exn option" "skeleton list"

fun skeleton_of :: "'d robot_utils \<Rightarrow> suite \<Rightarrow> skeleton" where
  "skeleton_of u (Suite source sid name longname doc test_count suites tests setup teardown) =
     Skeleton name (tests = []) (first_error (map (timeout_error u) tests))
       (map (skeleton_of u) suites)"

text \<open>The exception that ends a run and the files that it leaves, computed from the
  skeleton of the tree.\<close>

fun emit :: "skeleton \<Rightarrow> fs \<Rightarrow> exn option \<times> fs"
  and emits :: "skeleton list \<Rightarrow> fs \<Rightarrow> exn option \<times> fs"
where
  "emit (Skeleton name no_tests err children) files =
     (case emits children files of
        (Some e, files1) \<Rightarrow> (Some e, files1)
      | (None, files1) \<Rightarrow>
          if no_tests then (None, files1)
          else (case err of
                  Some e \<Rightarrow> (Some e, files1)
                | None \<Rightarrow>
                    (Some TypeError,
                     files1(replace_space name @ ''.feature'' \<mapsto>
                              ''Feature: '' @ name @ [nl, nl, nl]))))"
| "emits [] files = (None, files)"
| "emits (k # ks) files =
     (case emit k files of
        (Some e, files1) \<Rightarrow> (Some e, files1)
      | (None, files1) \<Rightarrow> emits ks files1)"

section \<open>Facts about the string operations\<close>

lemma py_in_sublist: "py_in w s = sublist w s"
  by (induction s) (auto simp: sublist_Cons_right)

lemma sublist_map_split:
  "sublist w (map f s) = (\<exists>ps x ss. s = ps @ x @ ss \<and> map f x = w)"
proof
  assume "sublist w (map f s)"
  then obtain ps ss where eq: "map f s = ps @ w @ ss"
    by (auto simp: sublist_def)
  define rest where "rest = drop (length ps) s"
  define x where "x = take (length w) rest"
  have "s = take (length ps) s @ rest"
    unfolding rest_def by (rule append_take_drop_id [symmetric])
  moreover have "rest = x @ drop (length w) rest"
    unfolding x_def by (rule append_take_drop_id [symmetric])
  ultimately have split: "s = take (length ps) s @ x @ drop (length w) rest"
    by simp
  have "map f rest = drop (length ps) (map f s)"
    unfolding rest_def by (rule drop_map [symmetric])
  then have "map f rest = w @ ss"
    by (simp add: eq)
  moreover have "map f x = take (length w) (map f rest)"
    unfolding x_def by (rule take_map [symmetric])
  ultimately have "map f x = w"
    by simp
  with split show "\<exists>ps x ss. s = ps @ x @ ss \<and> map f x = w"
    by blast
next
  assume "\<exists>ps x ss. s = ps @ x @ ss \<and> map f x = w"
  then obtain ps x ss where "s = ps @ x @ ss" "map f x = w"
    by blast
  then have "map f s = map f ps @ w @ map f ss"
    by simp
  then show "sublist w (map f s)"
    unfolding sublist_def by blast
qed

section \<open>Facts about the keyword normalizer\<close>

lemma build_if_length: "length (build_if bs) = length bs"
  by (induction bs) auto

lemma build_try_length: "length (build_try bs) = length bs"
  by (induction bs) auto

lemma build_try_map:
  "build_try bs =
     map (\<lambda>b. \<lparr>l_type = b_type b, l_name = try_branch_name b, l_arguments = ''''\<rparr>) bs"
  by (induction bs) auto

lemma build_keywords_length:
  "length (build_keywords u ns) = sum_list (map contribution ns)"
proof (induction ns)
  case Nil
  show ?case by simp
next
  case (Cons n ns)
  then show ?case
    by (cases n) (auto simp: build_if_length build_try_length split: kw_type.splits)
qed

lemma build_keywords_append:
  "build_keywords u (ms @ ns) = build_keywords u ms @ build_keywords u ns"
  by (induction ms) (auto split: node.splits kw_type.splits)

section \<open>Facts about the test builder\<close>

lemma build_test_body:
  "t_body (snd (build_test u t)) = present (t_setup t) @ t_body t @ present (t_teardown t)"
  by (cases "t_setup t"; cases "t_teardown t")
     (auto simp: build_test_def Let_def split: sum.splits)

lemma build_test_fields:
  "snd (build_test u t) = t\<lparr>t_body := present (t_setup t) @ t_body t @ present (t_teardown t)\<rparr>"
  by (cases "t_setup t"; cases "t_teardown t")
     (auto simp: build_test_def Let_def split: sum.splits)

lemma build_test_result:
  "fst (build_test u t) =
     (case get_timeout u (t_timeout t) of
        Inl e \<Rightarrow> Inl e
      | Inr tout \<Rightarrow>
          Inr \<lparr>tr_name = (if \<not> py_in ''scenario'' (py_lower (t_name t))
                           then ''Scenario: '' @ t_name t else t_name t),
                tr_fullName = t_longname t, tr_id = t_id t, tr_doc = t_doc t,
                tr_tags = t_tags t, tr_timeout = tout,
                tr_keywords =
                  build_keywords u (present (t_setup t) @ t_body t @ present (t_teardown t))\<rparr>)"
  by (cases "t_setup t"; cases "t_teardown t")
     (auto simp: build_test_def Let_def split: sum.splits)

lemma login_test_built: "fst (build_test stub_utils login_test) = Inr login_record"
  by (simp add: build_test_result login_test_def login_record_def get_timeout_def
      py_lower_def lower_char_def open_browser_def build_keyword_def get_kw_name_def)

section \<open>Facts about lowering\<close>

lemma lower_char_s: "(lower_char c = CHR ''s'') = (c = CHR ''s'' \<or> c = CHR ''S'')"
  by (cases c) (auto simp: lower_char_def Let_def split: if_splits)

lemma lower_char_c: "(lower_char c = CHR ''c'') = (c = CHR ''c'' \<or> c = CHR ''C'')"
  by (cases c) (auto simp: lower_char_def Let_def split: if_splits)

lemma lower_char_e: "(lower_char c = CHR ''e'') = (c = CHR ''e'' \<or> c = CHR ''E'')"
  by (cases c) (auto simp: lower_char_def Let_def split: if_splits)

lemma lower_char_n: "(lower_char c = CHR ''n'') = (c = CHR ''n'' \<or> c = CHR ''N'')"
  by (cases c) (auto simp: lower_char_def Let_def split: if_splits)

lemma lower_char_a: "(lower_char c = CHR ''a'') = (c = CHR ''a'' \<or> c = CHR ''A'')"
  by (cases c) (auto simp: lower_char_def Let_def split: if_splits)

lemma lower_char_r: "(lower_char c = CHR ''r'') = (c = CHR ''r'' \<or> c = CHR ''R'')"
  by (cases c) (auto simp: lower_char_def Let_def split: if_splits)

lemma lower_char_i: "(lower_char c = CHR ''i'') = (c = CHR ''i'' \<or> c = CHR ''I'')"
  by (cases c) (auto simp: lower_char_def Let_def split: if_splits)

lemma lower_char_o: "(lower_char c = CHR ''o'') = (c = CHR ''o'' \<or> c = CHR ''O'')"
  by (cases c) (auto simp: lower_char_def Let_def split: if_splits)

lemma py_lower_scenario: "(py_lower x = ''scenario'') = reads_scenario x"
proof -
  have "(map lower_char x = ''scenario'') =
      list_all2 (\<lambda>c l. lower_char c = l) x ''scenario''"
    by (simp only: list_all2_map1 [symmetric] list_all2_eq [symmetric])
  also have "\<dots> = reads_scenario x"
    unfolding reads_scenario_def
    by (simp add: list_all2_Cons2 lower_char_s lower_char_c lower_char_e lower_char_n
        lower_char_a lower_char_r lower_char_i lower_char_o)
  finally show ?thesis
    by (simp only: py_lower_def)
qed

section \<open>Facts about stripping\<close>

lemma lstrip_chars_split:
  "\<exists>cs. set cs \<subseteq> set chars \<and> s = concat cs @ lstrip_chars chars s"
proof (induction chars s rule: lstrip_chars.induct)
  case (1 chars s)
  show ?case
  proof (cases "find (\<lambda>c. c \<noteq> [] \<and> prefix c s) chars")
    case None
    then have "lstrip_chars chars s = s"
      by (simp add: lstrip_chars.simps)
    then have "set [] \<subseteq> set chars \<and> s = concat [] @ lstrip_chars chars s"
      by simp
    then show ?thesis
      by blast
  next
    case (Some c)
    then have c: "c \<in> set chars" "prefix c s"
      by (auto simp: find_Some_iff)
    from Some have step: "lstrip_chars chars s = lstrip_chars chars (drop (length c) s)"
      by (simp add: lstrip_chars.simps)
    from "1.IH" [OF Some] obtain cs where cs: "set cs \<subseteq> set chars"
      "drop (length c) s = concat cs @ lstrip_chars chars (drop (length c) s)"
      by blast
    from c have "s = c @ drop (length c) s"
      by (auto simp: prefix_def)
    with cs step have "s = concat (c # cs) @ lstrip_chars chars s"
      by simp
    moreover from c cs have "set (c # cs) \<subseteq> set chars"
      by simp
    ultimately show ?thesis
      by blast
  qed
qed

lemma lstrip_chars_no_prefix:
  "c \<in> set chars \<Longrightarrow> c \<noteq> [] \<Longrightarrow> \<not> prefix c (lstrip_chars chars s)"
proof (induction chars s rule: lstrip_chars.induct)
  case (1 chars s)
  show ?case
  proof (cases "find (\<lambda>c. c \<noteq> [] \<and> prefix c s) chars")
    case None
    then have "lstrip_chars chars s = s"
      by (simp add: lstrip_chars.simps)
    moreover from None "1.prems" have "\<not> prefix c s"
      by (auto simp: find_None_iff)
    ultimately show ?thesis
      by simp
  next
    case (Some d)
    then have "lstrip_chars chars s = lstrip_chars chars (drop (length d) s)"
      by (simp add: lstrip_chars.simps)
    with "1.IH" [OF Some "1.prems"] show ?thesis
      by simp
  qed
qed

lemma py_whitespace_nonempty: "[] \<notin> set py_whitespace"
  by (simp add: py_whitespace_def)

lemma py_strip_trimmed: "trimmed s (py_strip s)"
proof -
  define m where "m = lstrip_chars py_whitespace s"
  define q where "q = lstrip_chars (map rev py_whitespace) (rev m)"
  have r: "py_strip s = rev q"
    by (simp add: py_strip_def m_def q_def)
  obtain ls where ls: "set ls \<subseteq> set py_whitespace" "s = concat ls @ m"
    unfolding m_def using lstrip_chars_split by blast
  obtain ts where ts: "set ts \<subseteq> set (map rev py_whitespace)" "rev m = concat ts @ q"
    unfolding q_def using lstrip_chars_split by blast
  from ts(2) have "m = rev q @ rev (concat ts)"
    by (metis rev_append rev_rev_ident)
  then have m: "m = rev q @ concat (map rev (rev ts))"
    by (simp add: rev_concat)
  from ts(1) have "set (map rev (rev ts)) \<subseteq> set py_whitespace"
    by auto
  then have tail: "white (concat (map rev (rev ts)))"
    unfolding white_def by blast
  from ls(1) have head: "white (concat ls)"
    unfolding white_def by blast
  have ends: "\<not> prefix c (rev q) \<and> \<not> suffix c (rev q)" if c: "c \<in> set py_whitespace" for c
  proof
    from c py_whitespace_nonempty have ne: "c \<noteq> []"
      by auto
    from c ne have "\<not> prefix c m"
      unfolding m_def by (rule lstrip_chars_no_prefix)
    then show "\<not> prefix c (rev q)"
      using m by (metis prefix_prefix)
    from c have "rev c \<in> set (map rev py_whitespace)"
      by simp
    moreover from ne have "rev c \<noteq> []"
      by simp
    ultimately have "\<not> prefix (rev c) q"
      unfolding q_def by (rule lstrip_chars_no_prefix)
    then show "\<not> suffix c (rev q)"
      by (simp add: suffix_to_prefix)
  qed
  from ls(2) m have "s = concat ls @ rev q @ concat (map rev (rev ts))"
    by simp
  with head tail ends show ?thesis
    unfolding trimmed_def r by blast
qed

lemma try_branch_name_cases:
  "try_branch_name b =
     (if b_type b = ''EXCEPT''
      then py_strip (py_join '', '' (b_patterns b) @ '' '' @ as_clause (b_variable b))
      else '''')"
  by (cases "b_variable b") (simp_all add: try_branch_name_def Let_def)

section \<open>Facts about the emitter\<close>

lemma write_test_raises: "write_test test buf = (Some TypeError, buf)"
  by (simp add: write_test_def)

lemma write_test_list_raises:
  "tests \<noteq> [] \<Longrightarrow> write_test_list tests buf = (Some TypeError, buf)"
  by (cases tests) (simp_all add: write_test_raises)

lemma write_feature_raises:
  "tests \<noteq> [] \<Longrightarrow> write_feature name tests = (Some TypeError, ''Feature: '' @ name @ [nl, nl, nl])"
  by (simp add: write_feature_def write_test_list_raises)

lemma build_tests_length:
  "build_tests u ts = (Inr rs, ts') \<Longrightarrow> length rs = length ts"
  by (induction ts arbitrary: rs ts') (auto split: prod.splits sum.splits)

lemma login_test_build: "build_test stub_utils login_test = (Inr login_record, login_test)"
proof -
  have "snd (build_test stub_utils login_test) = login_test"
    by (simp add: build_test_fields login_test_def)
  with login_test_built show ?thesis
    by (simp add: prod_eq_iff)
qed

section \<open>Facts about a run\<close>

lemma build_test_error:
  "timeout_error u t = (case fst (build_test u t) of Inl e \<Rightarrow> Some e | Inr r \<Rightarrow> None)"
  by (simp add: build_test_result timeout_error_def split: sum.splits)

lemma build_test_timeout_error: "timeout_error u (snd (build_test u t)) = timeout_error u t"
  by (simp add: build_test_fields timeout_error_def)

lemma build_tests_error:
  "first_error (map (timeout_error u) ts) =
     (case fst (build_tests u ts) of Inl e \<Rightarrow> Some e | Inr rs \<Rightarrow> None)"
proof (induction ts)
  case Nil
  show ?case by simp
next
  case (Cons t ts)
  show ?case
    using Cons.IH build_test_error [of u t]
    by (cases "build_test u t"; cases "build_tests u ts")
       (auto split: sum.splits)
qed

lemma build_tests_timeout_error:
  "map (timeout_error u) (snd (build_tests u ts)) = map (timeout_error u) ts"
proof (induction ts)
  case Nil
  show ?case by simp
next
  case (Cons t ts)
  show ?case
    using Cons.IH build_test_timeout_error [of u t]
    by (cases "build_test u t"; cases "build_tests u ts")
       (auto split: sum.splits)
qed

lemma build_tests_empty: "(snd (build_tests u ts) = []) = (ts = [])"
  by (cases ts) (auto split: prod.splits sum.splits)

lemma write_tests_cases:
  "write_tests u suite files =
     (if s_tests suite = [] then (None, [], files)
      else case first_error (map (timeout_error u) (s_tests suite)) of
             Some e \<Rightarrow> (Some e, snd (build_tests u (s_tests suite)), files)
           | None \<Rightarrow>
               (Some TypeError, snd (build_tests u (s_tests suite)),
                files(replace_space (s_name suite) @ ''.feature'' \<mapsto>
                        ''Feature: '' @ s_name suite @ [nl, nl, nl])))"
proof (cases "s_tests suite = []")
  case True
  then show ?thesis
    by (simp add: write_tests_def)
next
  case False
  obtain r ts' where built: "build_tests u (s_tests suite) = (r, ts')"
    by (cases "build_tests u (s_tests suite)")
  show ?thesis
  proof (cases r)
    case (Inl e)
    with built build_tests_error [of u "s_tests suite"] False show ?thesis
      by (simp add: write_tests_def)
  next
    case (Inr rs)
    with built have "length rs = length (s_tests suite)"
      by (simp add: build_tests_length)
    with False have "rs \<noteq> []"
      by auto
    with Inr built build_tests_error [of u "s_tests suite"] False show ?thesis
      by (simp add: write_tests_def write_feature_raises)
  qed
qed


lemma build_suite_emit:
  "emit (skeleton_of u s) files = outcome (build_suite u out s files)"
  "emits (map (skeleton_of u) ss) files = outcome (build_suites u out ss files)"
proof (induction u out s files and u out ss files rule: build_suite_build_suites.induct)
  case (1 u out source sid name longname doc test_count suites tests before after files)
  then show ?case
    by (cases "build_suites u out suites files")
       (auto simp: outcome_def write_tests_cases split: sum.splits option.splits)
next
  case (2 u out files)
  show ?case
    by (simp add: outcome_def)
next
  case (3 u out s ss files)
  then show ?case
    by (cases "build_suite u out s files")
       (auto simp: outcome_def split: sum.splits prod.splits)
qed

lemma build_suite_skeleton:
  "skeleton_of u (tree_after (build_suite u out s files)) = skeleton_of u s"
  "map (skeleton_of u) (tree_after (build_suites u out ss files)) = map (skeleton_of u) ss"
proof (induction u out s files and u out ss files rule: build_suite_build_suites.induct)
  case (1 u out source sid name longname doc test_count suites tests before after files)
  then show ?case
    by (cases "build_suites u out suites files")
       (auto simp: tree_after_def write_tests_cases build_tests_timeout_error build_tests_empty
          split: sum.splits option.splits)
next
  case (2 u out files)
  show ?case
    by (simp add: tree_after_def)
next
  case (3 u out s ss files)
  then show ?case
    by (cases "build_suite u out s files")
       (auto simp: tree_after_def split: sum.splits prod.splits)
qed

lemma emits_files:
  assumes "\<And>k files. k \<in> set ks \<Longrightarrow>
      emit k files = (fst (emit k Map.empty), files ++ snd (emit k Map.empty))"
  shows "emits ks files = (fst (emits ks Map.empty), files ++ snd (emits ks Map.empty))"
  using assms
proof (induction ks arbitrary: files)
  case Nil
  show ?case
    by simp
next
  case (Cons k ks)
  have first: "emit k files = (fst (emit k Map.empty), files ++ snd (emit k Map.empty))"
    by (rule Cons.prems) simp
  have rest: "emits ks fs = (fst (emits ks Map.empty), fs ++ snd (emits ks Map.empty))" for fs
    by (rule Cons.IH) (rule Cons.prems, simp)
  show ?case
  proof (cases "fst (emit k Map.empty)")
    case None
    then have fresh: "emits (k # ks) Map.empty = emits ks (snd (emit k Map.empty))"
      by (cases "emit k Map.empty") simp
    from None first have "emits (k # ks) files = emits ks (files ++ snd (emit k Map.empty))"
      by simp
    also have "\<dots> = (fst (emits ks Map.empty),
        (files ++ snd (emit k Map.empty)) ++ snd (emits ks Map.empty))"
      by (rule rest)
    finally show ?thesis
      by (simp add: fresh rest [of "snd (emit k Map.empty)"] del: emits.simps)
  next
    case (Some e)
    then have "emits (k # ks) Map.empty = (Some e, snd (emit k Map.empty))"
      by (cases "emit k Map.empty") simp
    with Some first show ?thesis
      by simp
  qed
qed

lemma emit_files:
  "emit k files = (fst (emit k Map.empty), files ++ snd (emit k Map.empty))"
proof (induction k arbitrary: files)
  case (Skeleton name no_tests err children)
  have below: "emits children fs =
      (fst (emits children Map.empty), fs ++ snd (emits children Map.empty))" for fs
    by (rule emits_files) (rule Skeleton.IH)
  show ?case
    by (cases "emits children Map.empty")
       (auto simp: below [of files] split: option.splits)
qed

lemma emit_twice: "emit k (snd (emit k files)) = emit k files"
proof -
  have same: "m ++ m = m" for m :: fs
    by (rule ext) (simp add: map_add_def split: option.splits)
  have "(files ++ m) ++ m = files ++ m" for m :: fs
    by (simp only: map_add_assoc [symmetric] same)
  then show ?thesis
    by (simp add: emit_files [of k files] emit_files [of k "files ++ snd (emit k Map.empty)"])
qed





section \<open>The claims about single functions\<close>

text \<open>
  C8. The display name of a built test is the name with \<open>Scenario: \<close> in front
  exactly when no substring of the name reads \<open>scenario\<close> in whatever case of
  its letters; when one does, it is the name unchanged.
\<close>

theorem scenario_name_policy:
  assumes "fst (build_test u t) = Inr r"
  shows "(tr_name r = ''Scenario: '' @ t_name t) =
           (\<not> (\<exists>ps x ss. t_name t = ps @ x @ ss \<and> reads_scenario x))
         \<and> ((\<exists>ps x ss. t_name t = ps @ x @ ss \<and> reads_scenario x)
              \<longrightarrow> tr_name r = t_name t)"
proof -
  have occurs: "py_in ''scenario'' (py_lower (t_name t)) =
      (\<exists>ps x ss. t_name t = ps @ x @ ss \<and> reads_scenario x)"
    unfolding py_in_sublist py_lower_def sublist_map_split
    by (simp only: py_lower_scenario [unfolded py_lower_def])
  from assms have name: "tr_name r =
      (if \<not> py_in ''scenario'' (py_lower (t_name t))
       then ''Scenario: '' @ t_name t else t_name t)"
    by (auto simp: build_test_result split: sum.splits)
  show ?thesis
    unfolding name occurs by simp
qed

theorem scenario_name_policy_witness:
  "fst (build_test stub_utils login_works_test)
     = Inr (login_record\<lparr>tr_name := ''Scenario: Login works''\<rparr>)
   \<and> fst (build_test stub_utils scenario_login_test)
     = Inr (login_record\<lparr>tr_name := ''Scenario: Login works''\<rparr>)
   \<and> fst (build_test stub_utils my_scenario_test)
     = Inr (login_record\<lparr>tr_name := ''My SCENARIO test''\<rparr>)
   \<and> \<not> (\<exists>ps x ss. ''Login works'' = ps @ x @ ss \<and> reads_scenario x)
   \<and> (\<exists>ps x ss. ''Scenario: Login works'' = ps @ x @ ss \<and> reads_scenario x)
   \<and> (\<exists>ps x ss. ''My SCENARIO test'' = ps @ x @ ss \<and> reads_scenario x)"
proof -
  note defs = build_test_result login_test_def login_record_def get_timeout_def
    py_lower_def lower_char_def open_browser_def build_keyword_def get_kw_name_def
  have plain: "fst (build_test stub_utils login_works_test)
      = Inr (login_record\<lparr>tr_name := ''Scenario: Login works''\<rparr>)"
    by (simp add: login_works_test_def defs)
  have titled: "fst (build_test stub_utils scenario_login_test)
      = Inr (login_record\<lparr>tr_name := ''Scenario: Login works''\<rparr>)"
    by (simp add: scenario_login_test_def defs)
  have upper: "fst (build_test stub_utils my_scenario_test)
      = Inr (login_record\<lparr>tr_name := ''My SCENARIO test''\<rparr>)"
    by (simp add: my_scenario_test_def defs)
  from scenario_name_policy [OF plain] scenario_name_policy [OF titled]
    scenario_name_policy [OF upper]
  show ?thesis
    using plain titled upper
    by (simp add: login_works_test_def scenario_login_test_def my_scenario_test_def
        login_test_def login_record_def)
qed

text \<open>
  C9. A \<open>TRY\<close> block yields one line record per branch, in order, with the type tag
  of the branch and no arguments. The name of an \<open>EXCEPT\<close> branch is its patterns
  joined with a comma and a space, then a space, then \<open>AS\<close> and the variable when
  one is set, all of it trimmed of the white space around it; the name of any
  other branch is empty.
\<close>

theorem build_try_records:
  "build_keywords u (TryExceptRoot bs # ns) = build_try bs @ build_keywords u ns
   \<and> length (build_try bs) = length bs
   \<and> (\<forall>i < length bs.
        l_type (build_try bs ! i) = b_type (bs ! i)
        \<and> l_arguments (build_try bs ! i) = ''''
        \<and> (if b_type (bs ! i) = ''EXCEPT''
           then trimmed (py_join '', '' (b_patterns (bs ! i)) @ '' ''
                           @ as_clause (b_variable (bs ! i)))
                  (l_name (build_try bs ! i))
           else l_name (build_try bs ! i) = ''''))"
proof -
  let ?entry = "\<lambda>i. l_type (build_try bs ! i) = b_type (bs ! i)
      \<and> l_arguments (build_try bs ! i) = ''''
      \<and> (if b_type (bs ! i) = ''EXCEPT''
         then trimmed (py_join '', '' (b_patterns (bs ! i)) @ '' ''
                         @ as_clause (b_variable (bs ! i)))
                (l_name (build_try bs ! i))
         else l_name (build_try bs ! i) = '''')"
  have block: "build_keywords u (TryExceptRoot bs # ns) = build_try bs @ build_keywords u ns"
    by simp
  have each: "?entry i" if "i < length bs" for i
  proof -
    from that have "build_try bs ! i =
        \<lparr>l_type = b_type (bs ! i), l_name = try_branch_name (bs ! i), l_arguments = ''''\<rparr>"
      by (simp add: build_try_map)
    then show ?thesis
      by (simp add: try_branch_name_cases py_strip_trimmed)
  qed
  then have all: "\<forall>i < length bs. ?entry i"
    by blast
  show ?thesis
    by (rule conjI [OF block conjI [OF build_try_length all]])
qed

theorem build_try_records_witness:
  "build_keywords stub_utils
     [TryExceptRoot [try_branch, except_branch, bare_except_branch, padded_except_branch]] =
     [\<lparr>l_type = ''TRY'', l_name = '''', l_arguments = ''''\<rparr>,
      \<lparr>l_type = ''EXCEPT'', l_name = ''ValueError: *, Oops AS ${err}'', l_arguments = ''''\<rparr>,
      \<lparr>l_type = ''EXCEPT'', l_name = ''ValueError: *, Oops'', l_arguments = ''''\<rparr>,
      \<lparr>l_type = ''EXCEPT'', l_name = ''Oops'', l_arguments = ''''\<rparr>]
   \<and> trimmed ''ValueError: *, Oops '' ''ValueError: *, Oops''
   \<and> trimmed ([CHR 0xC2, CHR 0xA0] @ ''Oops'' @ [CHR 0x09] @ '' '') ''Oops''"
proof -
  let ?bs = "[try_branch, except_branch, bare_except_branch, padded_except_branch]"
  note defs = try_branch_def except_branch_def bare_except_branch_def padded_except_branch_def
  have built: "build_try ?bs =
     [\<lparr>l_type = ''TRY'', l_name = '''', l_arguments = ''''\<rparr>,
      \<lparr>l_type = ''EXCEPT'', l_name = ''ValueError: *, Oops AS ${err}'', l_arguments = ''''\<rparr>,
      \<lparr>l_type = ''EXCEPT'', l_name = ''ValueError: *, Oops'', l_arguments = ''''\<rparr>,
      \<lparr>l_type = ''EXCEPT'', l_name = ''Oops'', l_arguments = ''''\<rparr>]"
    by (simp add: defs try_branch_name_def py_strip_def py_whitespace_def lstrip_chars.simps)
  note records = build_try_records [of stub_utils ?bs "[]"]
  note each = records [THEN conjunct2, THEN conjunct2, rule_format]
  have block: "build_keywords stub_utils [TryExceptRoot ?bs] = build_try ?bs"
    using records by simp
  have "2 < length ?bs"
    by simp
  from each [OF this] have bare: "trimmed ''ValueError: *, Oops '' ''ValueError: *, Oops''"
    unfolding built by (simp add: defs)
  have "3 < length ?bs"
    by simp
  from each [OF this]
  have padded: "trimmed ([CHR 0xC2, CHR 0xA0] @ ''Oops'' @ [CHR 0x09] @ '' '') ''Oops''"
    unfolding built by (simp add: defs)
  from block built bare padded show ?thesis
    by simp
qed

text \<open>
  C4, as amended. The keywords of a built test are as many as the items of its
  body yield, one for a keyword, a \<open>FOR\<close> or a \<open>WHILE\<close>, one per branch for an
  \<open>IF\<close> or a \<open>TRY\<close> block and none for an item whose truth value is false,
  plus one for a setup and one for a teardown that is present.
\<close>

theorem keywords_length:
  assumes "fst (build_test u t) = Inr r"
  shows "length (tr_keywords r) =
           sum_list (map contribution (t_body t))
           + (if t_setup t = None then 0 else 1) + (if t_teardown t = None then 0 else 1)"
proof -
  from assms have "tr_keywords r =
      build_keywords u (present (t_setup t) @ t_body t @ present (t_teardown t))"
    by (auto simp: build_test_result split: sum.splits)
  then have "length (tr_keywords r) =
      sum_list (map contribution (present (t_setup t) @ t_body t @ present (t_teardown t)))"
    by (simp only: build_keywords_length)
  then show ?thesis
    by (cases "t_setup t"; cases "t_teardown t") simp_all
qed

theorem keywords_length_witness:
  "fst (build_test stub_utils login_test) = Inr login_record
   \<and> length (tr_keywords login_record) = 1
   \<and> sum_list (map contribution (t_body login_test)) = 1"
proof -
  have built: "fst (build_test stub_utils login_test) = Inr login_record"
    by (rule login_test_built)
  from keywords_length [OF built] show ?thesis
    using built by (simp add: login_test_def login_record_def)
qed

text \<open>The claim as it is written fails on a body that holds a skipped item: the
  body has one item, no control block, no setup and no teardown, and the test has
  no keywords.\<close>

theorem keywords_length_counterexample:
  "map_sum id (\<lambda>r. length (tr_keywords r)) (fst (build_test stub_utils skipped_item_test)) = Inr 0
   \<and> length (t_body skipped_item_test) = 1
   \<and> t_setup skipped_item_test = None \<and> t_teardown skipped_item_test = None"
  by (simp add: build_test_result skipped_item_test_def login_test_def get_timeout_def)

text \<open>
  C2, as amended. Building a test changes the test: afterwards its body is the
  setup, if present, then the body as it was, then the teardown, if present, and
  its other fields are as they were. The body is unchanged exactly when the test
  has neither a setup nor a teardown.
\<close>

theorem build_test_mutates_body:
  "snd (build_test u t) = t\<lparr>t_body := present (t_setup t) @ t_body t @ present (t_teardown t)\<rparr>
   \<and> (t_body (snd (build_test u t)) = t_body t) = (t_setup t = None \<and> t_teardown t = None)"
proof -
  have "(present (t_setup t) @ t_body t @ present (t_teardown t) = t_body t)
      = (t_setup t = None \<and> t_teardown t = None)"
    by (cases "t_setup t"; cases "t_teardown t") auto
  then show ?thesis
    by (simp add: build_test_fields)
qed

theorem build_test_mutates_body_witness:
  "t_body (snd (build_test stub_utils setup_test)) = [Keyword log_in, Keyword open_browser]
   \<and> t_body (snd (build_test stub_utils login_test)) = t_body login_test"
  using build_test_mutates_body [of stub_utils setup_test]
    build_test_mutates_body [of stub_utils login_test]
  by (simp add: setup_test_def login_test_def)

text \<open>The claim as it is written fails on a test with a setup: the body of the
  test node has one item before the call and two after it.\<close>

theorem build_test_mutates_body_counterexample:
  "t_body setup_test = [Keyword open_browser]
   \<and> t_body (snd (build_test stub_utils setup_test)) = [Keyword log_in, Keyword open_browser]"
  by (simp add: build_test_body setup_test_def login_test_def)

text \<open>
  C7. The relative source is empty whenever the source or the output path is
  \<open>None\<close> or empty; otherwise it is exactly what \<open>get_link_path\<close> gives for
  the source and the directory of the output path. The \<open>relativeSource\<close> of a
  suite record is this value for the source of the suite.
\<close>

theorem relative_source_cases:
  "(source = None \<or> source = Some '''' \<or> output_path = None \<or> output_path = Some ''''
      \<longrightarrow> get_relative_source u output_path source = '''')
   \<and> (\<forall>src out. source = Some src \<and> src \<noteq> '''' \<and> output_path = Some out \<and> out \<noteq> ''''
      \<longrightarrow> get_relative_source u output_path source = get_link_path u src (dirname u out))
   \<and> (\<forall>r suite' files'. build_suite u output_path suite files = (Inr r, suite', files')
      \<longrightarrow> sr_relativeSource r = get_relative_source u output_path (s_source suite))"
proof -
  have empty: "source = None \<or> source = Some '''' \<or> output_path = None \<or> output_path = Some ''''
      \<longrightarrow> get_relative_source u output_path source = ''''"
    by (auto simp: get_relative_source_def split: option.splits)
  have link: "\<forall>src out. source = Some src \<and> src \<noteq> '''' \<and> output_path = Some out \<and> out \<noteq> ''''
      \<longrightarrow> get_relative_source u output_path source = get_link_path u src (dirname u out)"
    by (simp add: get_relative_source_def)
  have field: "\<forall>r suite' files'. build_suite u output_path suite files = (Inr r, suite', files')
      \<longrightarrow> sr_relativeSource r = get_relative_source u output_path (s_source suite)"
    by (cases suite) (auto split: prod.splits sum.splits option.splits)
  from empty link field show ?thesis
    by blast
qed

theorem relative_source_cases_witness:
  "get_relative_source stub_utils (Some ''/out/log.html'') (Some ''/tests/login.robot'')
     = ''link from dir of /out/log.html to /tests/login.robot''
   \<and> get_relative_source stub_utils None (Some ''/tests/login.robot'') = ''''
   \<and> get_relative_source stub_utils (Some ''/out/log.html'') (Some '''') = ''''
   \<and> map_sum id sr_relativeSource
         (fst (build_suite stub_utils (Some ''/out/log.html'') sourced_suite Map.empty))
     = Inr ''link from dir of /out/log.html to /tests/login.robot''"
  using
    relative_source_cases [where source = "Some ''/tests/login.robot''"
      and output_path = "Some ''/out/log.html''" and u = stub_utils
      and suite = sourced_suite and files = Map.empty]
    relative_source_cases [where source = "Some ''/tests/login.robot''"
      and output_path = None and u = stub_utils]
    relative_source_cases [where source = "Some ''''"
      and output_path = "Some ''/out/log.html''" and u = stub_utils]
  by (simp add: stub_utils_def sourced_suite_def write_tests_def get_relative_source_def)



text \<open>
  C3. The emitter does not write the lines of a test: the first thing it does for
  a test is to add the tags, a list, to the string \<open>t\<close>, which raises
  \<open>TypeError\<close>. For the suite \<open>Login Suite\<close> with its one test the file holds the
  header and nothing else.
\<close>

theorem write_tests_raises_type_error:
  "write_tests stub_utils login_suite Map.empty =
     (Some TypeError, [login_test],
      [''Login_Suite.feature'' \<mapsto> ''Feature: Login Suite'' @ [nl, nl, nl]])"
  by (simp add: write_tests_def login_suite_def login_test_build write_feature_raises
      replace_space_def)

text \<open>
  C6. Of two sibling suites with one test each only the first gets a file: the
  \<open>TypeError\<close> raised while its file is written ends the run before the second
  suite is reached.
\<close>

theorem build_suite_stops_at_first_file:
  "outcome (build_suite stub_utils None root_suite Map.empty) =
     (Some TypeError, [''A.feature'' \<mapsto> ''Feature: A'' @ [nl, nl, nl]])
   \<and> s_tests suite_b = [login_test]"
  by (simp add: outcome_def root_suite_def suite_a_def suite_b_def write_tests_def
      login_test_build write_feature_raises replace_space_def)

text \<open>
  C1. A second run on the tree that the first run has left behind ends like the
  first run and leaves the same files with the same text, both when it starts from
  the files the first run started from and when it starts from the files the first
  run has left. The first run changes the bodies of the tests it builds, but the
  text of a file never reaches the lines of a test: it is the header of the suite.
\<close>

theorem conversion_twice_same_files:
  "outcome (build_suite u out (tree_after (build_suite u out s files)) files)
     = outcome (build_suite u out s files)
   \<and> outcome (build_suite u out (tree_after (build_suite u out s files))
        (snd (outcome (build_suite u out s files))))
     = outcome (build_suite u out s files)"
  by (simp add: build_suite_emit [symmetric] build_suite_skeleton emit_twice)

theorem conversion_twice_same_files_witness:
  "t_body (hd (s_tests setup_suite)) = [Keyword open_browser]
   \<and> t_body (hd (s_tests (tree_after (build_suite stub_utils None setup_suite Map.empty))))
       = [Keyword log_in, Keyword open_browser]
   \<and> outcome (build_suite stub_utils None setup_suite Map.empty)
       = (Some TypeError, [''Login_Suite.feature'' \<mapsto> ''Feature: Login Suite'' @ [nl, nl, nl]])
   \<and> outcome (build_suite stub_utils None
         (tree_after (build_suite stub_utils None setup_suite Map.empty)) Map.empty)
       = (Some TypeError, [''Login_Suite.feature'' \<mapsto> ''Feature: Login Suite'' @ [nl, nl, nl]])"
proof -
  have "\<exists>r. build_test stub_utils setup_test =
      (Inr r, setup_test\<lparr>t_body := [Keyword log_in, Keyword open_browser]\<rparr>)"
    by (simp add: prod_eq_iff build_test_fields build_test_result get_timeout_def
        setup_test_def login_test_def)
  then obtain r where built: "build_test stub_utils setup_test =
      (Inr r, setup_test\<lparr>t_body := [Keyword log_in, Keyword open_browser]\<rparr>)"
    by blast
  have run: "build_suite stub_utils None setup_suite Map.empty =
      (Inl TypeError,
       Suite None ''s1'' ''Login Suite'' ''Login Suite'' '''' 1 []
         [setup_test\<lparr>t_body := [Keyword log_in, Keyword open_browser]\<rparr>] None None,
       [''Login_Suite.feature'' \<mapsto> ''Feature: Login Suite'' @ [nl, nl, nl]])"
    by (simp add: setup_suite_def write_tests_def write_feature_raises replace_space_def built)
  have before: "t_body (hd (s_tests setup_suite)) = [Keyword open_browser]"
    by (simp add: setup_suite_def setup_test_def login_test_def)
  from conversion_twice_same_files [of stub_utils None setup_suite Map.empty] show ?thesis
    by (simp add: run before outcome_def tree_after_def)
qed




end
